theory Spec2Isabelle
  imports Main "HOL-Library.Sublist" "HOL-Library.AList"
begin

section \<open>Data model (models/email.ts and the library values the service reads)\<close>

datatype EmailCategory =
  Interested | Meeting_Booked | Not_Interested | Spam | Out_of_Office | Uncategorized

text \<open>A JavaScript \<open>Date\<close>: either built from a header string or read from the clock.\<close>

datatype js_date = Date_of string | Date_now nat

record attachment_meta =
  filename :: string
  contentType :: string
  size_bytes :: nat

text \<open>
  \<open>Partial<EmailDocument>\<close>: the six fields of the object literal in the 'message'
  callback are always present, every other field is optional until a callback assigns it.
  \<open>id\<close>, \<open>from\<close> and \<open>to\<close> are renamed because Isabelle reserves these words.
\<close>

record EmailDocument =
  email_id :: string
  accountId :: string
  folder :: string
  read :: bool
  aiCategory :: EmailCategory
  indexedAt :: js_date
  subject :: "string option"
  body :: "string option"
  bodyHtml :: "string option"
  from_addr :: "string option"
  to_addrs :: "string list option"
  cc :: "string list option"
  bcc :: "string list option"
  date :: "js_date option"
  attachments :: "attachment_meta list option"

text \<open>The result of \<open>Imap.parseHeader\<close>: a dictionary from header names to value lists.\<close>

type_synonym parsed_header = "string \<rightharpoonup> string list"

text \<open>The part of mailparser's \<open>ParsedMail\<close> that the service reads.\<close>

record parsed_attachment =
  att_filename :: "string option"
  att_contentType :: string
  att_size :: nat

record ParsedMail =
  parsed_text :: "string option"
  parsed_html :: "string option"
  parsed_attachments :: "parsed_attachment list"

text \<open>The \<open>attrs\<close> object of a message's 'attributes' event.\<close>

record msg_attrs =
  uid :: nat
  flags :: "string list option"

datatype log_entry = LogInfo string | LogError string | LogDebug string

section \<open>JavaScript operators on optional strings\<close>

text \<open>Truthiness of \<open>string | undefined\<close>: defined and not the empty string.\<close>

definition js_truthy :: "string option \<Rightarrow> bool" where
  "js_truthy v = (case v of None \<Rightarrow> False | Some s \<Rightarrow> s \<noteq> [])"

text \<open>\<open>v || d\<close> for an optional string \<open>v\<close> and a string default \<open>d\<close>.\<close>

definition or_else :: "string option \<Rightarrow> string \<Rightarrow> string" where
  "or_else v d = (case v of None \<Rightarrow> d | Some s \<Rightarrow> if s = [] then d else s)"

text \<open>\<open>xs?.[0]\<close>: undefined when the array is missing or empty.\<close>

definition first_of :: "string list option \<Rightarrow> string option" where
  "first_of v = (case v of None \<Rightarrow> None | Some [] \<Rightarrow> None | Some (x # _) \<Rightarrow> Some x)"

text \<open>\<open>xs || []\<close>: an array is truthy even when empty.\<close>

definition or_empty :: "string list option \<Rightarrow> string list" where
  "or_empty v = (case v of None \<Rightarrow> [] | Some xs \<Rightarrow> xs)"

text \<open>Decimal rendering of a non-negative integer, as a template literal prints it.\<close>

definition digit :: "nat \<Rightarrow> char" where
  "digit d = ''0123456789'' ! d"

fun show_nat :: "nat \<Rightarrow> string" where
  "show_nat n =
     (if n < 10 then [digit n]
      else show_nat (n div 10) @ [digit (n mod 10)])"

declare show_nat.simps [simp del]

definition show_int :: "int \<Rightarrow> string" where
  "show_int n = (if n < 0 then ''-'' @ show_nat (nat (- n)) else show_nat (nat n))"

section \<open>Message Normalizer: the callbacks of one fetched message\<close>

text \<open>
  The callbacks below occur twice in the source with the same text: in \<open>initialSync\<close>
  (lines 194-254) and in \<open>fetchNewEmails\<close> (lines 359-419). \<open>uuid\<close> is the value
  \<open>uuidv4()\<close> returned and \<open>now\<close> the clock reading of \<open>new Date()\<close>.
\<close>

definition new_email :: "string \<Rightarrow> string \<Rightarrow> nat \<Rightarrow> EmailDocument" where
  "new_email acc uuid now =
     \<lparr> email_id = uuid, accountId = acc, folder = ''INBOX'', read = False,
       aiCategory = Uncategorized, indexedAt = Date_now now,
       subject = None, body = None, bodyHtml = None, from_addr = None,
       to_addrs = None, cc = None, bcc = None, date = None, attachments = None \<rparr>"

text \<open>The \<open>HEADER\<close> branch of the stream's 'end' callback.\<close>

definition on_header :: "(string \<Rightarrow> parsed_header) \<Rightarrow> nat \<Rightarrow> string \<Rightarrow> EmailDocument \<Rightarrow> EmailDocument" where
  "on_header parseHeader now buffer email =
     (let parsedHeader = parseHeader buffer in
      email\<lparr> subject := Some (or_else (first_of (parsedHeader ''subject'')) ''(No Subject)''),
             from_addr := Some (or_else (first_of (parsedHeader ''from'')) ''''),
             to_addrs := Some (or_empty (parsedHeader ''to'')),
             cc := Some (or_empty (parsedHeader ''cc'')),
             bcc := Some (or_empty (parsedHeader ''bcc'')),
             date := Some (if js_truthy (first_of (parsedHeader ''date''))
                           then Date_of (or_else (first_of (parsedHeader ''date'')) '''')
                           else Date_now now) \<rparr>)"

definition attachment_of :: "parsed_attachment \<Rightarrow> attachment_meta" where
  "attachment_of att =
     \<lparr> filename = or_else (att_filename att) ''unnamed'',
       contentType = att_contentType att,
       size_bytes = att_size att \<rparr>"

text \<open>
  The other branch: the message body. \<open>simpleParser\<close> returns \<open>Inl\<close> when its promise
  rejects; the \<open>catch\<close> logs and falls back to the raw buffer.
\<close>

definition on_text :: "(string \<Rightarrow> string + ParsedMail) \<Rightarrow> string \<Rightarrow> EmailDocument \<Rightarrow> EmailDocument \<times> log_entry list" where
  "on_text simpleParser buffer email =
     (case simpleParser buffer of
        Inr parsed \<Rightarrow>
          (let e1 = email\<lparr> body := Some (or_else (parsed_text parsed) ''''),
                          bodyHtml := (if js_truthy (parsed_html parsed) then parsed_html parsed else None) \<rparr>
           in (if parsed_attachments parsed \<noteq> []
               then e1\<lparr> attachments := Some (map attachment_of (parsed_attachments parsed)) \<rparr>
               else e1, []))
      | Inl parseError \<Rightarrow>
          (email\<lparr> body := Some buffer \<rparr>, [LogError (''Error parsing email body: '' @ parseError)]))"

text \<open>The 'attributes' callback: the identifier and the read flag.\<close>

definition on_attributes :: "string \<Rightarrow> msg_attrs \<Rightarrow> EmailDocument \<Rightarrow> EmailDocument" where
  "on_attributes acc attrs email =
     email\<lparr> email_id := acc @ ''-'' @ show_nat (uid attrs),
            read := (CHR 0x5C # ''Seen'') \<in> set (or_empty (flags attrs)) \<rparr>"

text \<open>The test of the 'end' callback: \<open>email.subject && email.body\<close>.\<close>

definition emittable :: "EmailDocument \<Rightarrow> bool" where
  "emittable email = (js_truthy (subject email) \<and> js_truthy (body email))"

text \<open>
  The events one message delivers to its callbacks. \<open>BodyEnd which buffer now\<close> marks the
  point where the assignments of the stream's 'end' callback take place: for a header part
  the callback itself, for a text part its resumption after \<open>await simpleParser(buffer)\<close>,
  which the event loop may run after the message's own 'end'.
\<close>

datatype msg_event =
  BodyEnd string string nat
  | Attributes msg_attrs
  | MsgEnd

datatype effect = Emit EmailDocument | Log log_entry

text \<open>
  The closure of one 'message' callback: the email under construction and whether the two
  \<open>once\<close> listeners are still registered.
\<close>

record msg_closure =
  email :: EmailDocument
  attrs_once :: bool
  end_once :: bool

definition new_closure :: "string \<Rightarrow> string \<Rightarrow> nat \<Rightarrow> msg_closure" where
  "new_closure acc uuid now =
     \<lparr> email = new_email acc uuid now, attrs_once = True, end_once = True \<rparr>"

fun msg_step :: "(string \<Rightarrow> parsed_header) \<Rightarrow> (string \<Rightarrow> string + ParsedMail) \<Rightarrow> string
    \<Rightarrow> msg_event \<Rightarrow> msg_closure \<Rightarrow> msg_closure \<times> effect list" where
  "msg_step ph sp acc (BodyEnd which buffer now) m =
     (if prefix ''HEADER'' which
      then (m\<lparr> email := on_header ph now buffer (email m) \<rparr>, [])
      else (let (e, logs) = on_text sp buffer (email m)
            in (m\<lparr> email := e \<rparr>, map Log logs)))"
| "msg_step ph sp acc (Attributes attrs) m =
     (if attrs_once m
      then (m\<lparr> email := on_attributes acc attrs (email m), attrs_once := False \<rparr>, [])
      else (m, []))"
| "msg_step ph sp acc MsgEnd m =
     (if end_once m
      then (m\<lparr> end_once := False \<rparr>, if emittable (email m) then [Emit (email m)] else [])
      else (m, []))"

text \<open>One message's closure run over the events it receives, in their order.\<close>

fun msg_run :: "(string \<Rightarrow> parsed_header) \<Rightarrow> (string \<Rightarrow> string + ParsedMail) \<Rightarrow> string
    \<Rightarrow> msg_closure \<Rightarrow> msg_event list \<Rightarrow> msg_closure \<times> effect list" where
  "msg_run ph sp acc m [] = (m, [])"
| "msg_run ph sp acc m (ev # evs) =
     (let (m1, out1) = msg_step ph sp acc ev m;
          (m2, out2) = msg_run ph sp acc m1 evs
      in (m2, out1 @ out2))"

definition emitted :: "effect list \<Rightarrow> EmailDocument list" where
  "emitted out = concat (map (\<lambda>x. case x of Emit e \<Rightarrow> [e] | Log _ \<Rightarrow> []) out)"


section \<open>The messages of one fetch\<close>

text \<open>
  A fetch delivers 'message' events, each creating a fresh closure, and then the events of
  each message. Messages of one fetch are identified by the sequence number handed to the
  'message' callback; \<open>uuid\<close> and \<open>now\<close> are what \<open>uuidv4()\<close> and \<open>new Date()\<close> return
  in that callback. Effects are recorded with the sequence number of their message.
\<close>

datatype delivery =
  Message int string nat
  | Part int msg_event

type_synonym msg_store = "int \<rightharpoonup> msg_closure"

fun store_step :: "(string \<Rightarrow> parsed_header) \<Rightarrow> (string \<Rightarrow> string + ParsedMail) \<Rightarrow> string
    \<Rightarrow> delivery \<Rightarrow> msg_store \<Rightarrow> msg_store \<times> (int \<times> effect) list" where
  "store_step ph sp acc (Message seqno uuid now) st =
     (st(seqno \<mapsto> new_closure acc uuid now), [])"
| "store_step ph sp acc (Part seqno ev) st =
     (case st seqno of
        None \<Rightarrow> (st, [])
      | Some m \<Rightarrow> (let (m1, out) = msg_step ph sp acc ev m
                   in (st(seqno \<mapsto> m1), map (Pair seqno) out)))"

text \<open>True when the delivery runs the 'end' callback of a message of the store.\<close>

definition runs_end :: "delivery \<Rightarrow> msg_store \<Rightarrow> bool" where
  "runs_end d st =
     (case d of
        Part seqno MsgEnd \<Rightarrow> (case st seqno of None \<Rightarrow> False | Some m \<Rightarrow> end_once m)
      | _ \<Rightarrow> False)"

section \<open>Fetch Batcher: the batches of initialSync\<close>

text \<open>
  The loop \<open>for (let i = 0; i < results.length; i += batchSize)\<close> with
  \<open>results.slice(i, i + batchSize)\<close>.
\<close>

definition batchSize :: nat where
  "batchSize = 10"

function make_batches :: "nat \<Rightarrow> int list \<Rightarrow> int list list" where
  "make_batches i results =
     (if i < length results
      then take batchSize (drop i results) # make_batches (i + batchSize) results
      else [])"
  by pat_completeness auto
termination
  by (relation "measure (\<lambda>(i, results). length results - i)") (auto simp: batchSize_def)

declare make_batches.simps [simp del]

text \<open>
  The closure of one call \<open>processBatch(batchIndex)\<close> that issued a fetch: the captured
  batch, the messages under construction, \<open>processedCount\<close>, and whether the fetch's
  \<open>once('error')\<close> and \<open>once('end')\<close> listeners are still registered.
\<close>

record batch_fetch =
  batchIndex :: nat
  batch :: "int list"
  msgs :: msg_store
  processedCount :: nat
  fetch_error_once :: bool
  fetch_end_once :: bool

datatype fetch_event =
  Deliver delivery
  | FetchError string
  | FetchEnd

datatype settled = Resolved | Rejected string

text \<open>What initialSync does, in program order.\<close>

datatype sync_action =
  OpenBox
  | Search
  | FetchBatch "int list"
  | Settle settled
  | OfMsg int effect
  | SyncLog log_entry

text \<open>
  The state of one initialSync call: the batches, every fetch issued so far in the order
  of issue, and which library callbacks are still awaited.
\<close>

record sync_state =
  batches :: "int list list"
  fetches :: "batch_fetch list"
  awaits_open :: bool
  awaits_search :: bool

datatype sync_event =
  OpenBoxDone "string option" nat
  | SearchDone "string option" "int list"
  | OfFetch nat fetch_event

text \<open>
  The call itself: \<open>openBox\<close> is called inside a \<open>try\<close>; \<open>thrown\<close> is the error it
  throws, if it throws.
\<close>

definition initialSync :: "string \<Rightarrow> string option \<Rightarrow> sync_state \<times> sync_action list" where
  "initialSync acc thrown =
     (case thrown of
        None \<Rightarrow>
          (\<lparr> batches = [], fetches = [], awaits_open = True, awaits_search = False \<rparr>, [OpenBox])
      | Some e \<Rightarrow>
          (\<lparr> batches = [], fetches = [], awaits_open = False, awaits_search = False \<rparr>,
           [SyncLog (LogError (''Error during initial sync for '' @ acc @ '':'')),
            Settle (Rejected e)]))"

definition processBatch :: "string \<Rightarrow> nat \<Rightarrow> sync_state \<Rightarrow> sync_state \<times> sync_action list" where
  "processBatch acc k s =
     (if k \<ge> length (batches s) then (s, [Settle Resolved])
      else (s\<lparr> fetches := fetches s @
                 [\<lparr> batchIndex = k, batch = batches s ! k, msgs = Map.empty,
                    processedCount = 0, fetch_error_once = True, fetch_end_once = True \<rparr>] \<rparr>,
            [FetchBatch (batches s ! k)]))"

text \<open>A fetch event of the \<open>i\<close>-th fetch issued, handled by the listeners of that fetch.\<close>

definition on_fetch_event :: "(string \<Rightarrow> parsed_header) \<Rightarrow> (string \<Rightarrow> string + ParsedMail) \<Rightarrow> string
    \<Rightarrow> nat \<Rightarrow> fetch_event \<Rightarrow> sync_state \<Rightarrow> sync_state \<times> sync_action list" where
  "on_fetch_event ph sp acc i fev s =
     (if i \<ge> length (fetches s) then (s, [])
      else
        (let f = fetches s ! i in
         case fev of
           Deliver d \<Rightarrow>
             (let (st1, out) = store_step ph sp acc d (msgs f);
                  acts = map (\<lambda>(n, x). OfMsg n x) out
              in if runs_end d (msgs f)
                 then (let f1 = f\<lparr> msgs := st1, processedCount := processedCount f + 1 \<rparr>;
                           s1 = s\<lparr> fetches := (fetches s)[i := f1] \<rparr>
                       in if processedCount f1 = length (batch f1)
                          then (let (s2, acts2) = processBatch acc (batchIndex f1 + 1) s1
                                in (s2, acts @
                                     [SyncLog (LogInfo (''Processed batch '' @ show_nat (batchIndex f1 + 1) @ ''/''
                                        @ show_nat (length (batches s)) @ '' for '' @ acc))] @ acts2))
                          else (s1, acts))
                 else (s\<lparr> fetches := (fetches s)[i := f\<lparr> msgs := st1 \<rparr>] \<rparr>, acts))
         | FetchError fetchErr \<Rightarrow>
             (if fetch_error_once f
              then (s\<lparr> fetches := (fetches s)[i := f\<lparr> fetch_error_once := False \<rparr>] \<rparr>,
                    [SyncLog (LogError (''Fetch error for '' @ acc @ '':'')), Settle (Rejected fetchErr)])
              else (s, []))
         | FetchEnd \<Rightarrow>
             (if fetch_end_once f
              then (s\<lparr> fetches := (fetches s)[i := f\<lparr> fetch_end_once := False \<rparr>] \<rparr>,
                    [SyncLog (LogDebug (''Batch '' @ show_nat (batchIndex f + 1)
                                @ '' fetch completed for '' @ acc))])
              else (s, []))))"

fun sync_step :: "(string \<Rightarrow> parsed_header) \<Rightarrow> (string \<Rightarrow> string + ParsedMail) \<Rightarrow> string
    \<Rightarrow> sync_event \<Rightarrow> sync_state \<Rightarrow> sync_state \<times> sync_action list" where
  "sync_step ph sp acc (OpenBoxDone err msg_total) s =
     (if \<not> awaits_open s then (s, [])
      else (case err of
              Some e \<Rightarrow> (s\<lparr> awaits_open := False \<rparr>,
                         [SyncLog (LogError (''Error opening INBOX for '' @ acc @ '':'')), Settle (Rejected e)])
            | None \<Rightarrow> (s\<lparr> awaits_open := False, awaits_search := True \<rparr>,
                       [SyncLog (LogInfo (''Opened INBOX for '' @ acc @ '', message count: '' @ show_nat msg_total)),
                        Search])))"
| "sync_step ph sp acc (SearchDone searchErr results) s =
     (if \<not> awaits_search s then (s, [])
      else (case searchErr of
              Some e \<Rightarrow> (s\<lparr> awaits_search := False \<rparr>,
                         [SyncLog (LogError (''Error searching emails for '' @ acc @ '':'')), Settle (Rejected e)])
            | None \<Rightarrow>
                (let found = SyncLog (LogInfo (''Found '' @ show_nat (length results)
                               @ '' emails in the last 30 days for '' @ acc))
                 in if length results = 0
                    then (s\<lparr> awaits_search := False \<rparr>, [found, Settle Resolved])
                    else (let (s1, acts) = processBatch acc 0
                                (s\<lparr> awaits_search := False, batches := make_batches 0 results \<rparr>)
                          in (s1, found # acts)))))"
| "sync_step ph sp acc (OfFetch i fev) s = on_fetch_event ph sp acc i fev s"

fun sync_run :: "(string \<Rightarrow> parsed_header) \<Rightarrow> (string \<Rightarrow> string + ParsedMail) \<Rightarrow> string
    \<Rightarrow> sync_state \<Rightarrow> sync_event list \<Rightarrow> sync_state \<times> sync_action list" where
  "sync_run ph sp acc s [] = (s, [])"
| "sync_run ph sp acc s (ev # evs) =
     (let (s1, out1) = sync_step ph sp acc ev s;
          (s2, out2) = sync_run ph sp acc s1 evs
      in (s2, out1 @ out2))"




text \<open>The batches for which a fetch was issued, in the order of issue.\<close>

definition issued :: "sync_action list \<Rightarrow> int list list" where
  "issued out = concat (map (\<lambda>a. case a of FetchBatch b \<Rightarrow> [b] | _ \<Rightarrow> []) out)"

section \<open>The service: ImapSyncService\<close>

record ImapAccountConfig =
  user :: string
  password :: string
  host :: string
  port :: nat
  tls :: bool

text \<open>The three closures the service passes to \<open>setTimeout\<close>.\<close>

datatype callback =
  ReconnectByUser string
  | ReconnectWith ImapAccountConfig
  | WatchdogRestart string nat

text \<open>
  An \<open>Imap\<close> object as the service observes it: the account its listeners were created
  for, which \<open>once\<close> listeners are still registered, the number of 'mail' listeners (all
  are the same closure over the account and the connection), \<open>imap._box.messages.total\<close>
  (\<open>None\<close> when no box is open), and whether \<open>idle\<close>, \<open>seq.fetch\<close> and \<open>end\<close>
  throw when called. Connections are identified by their index in \<open>conns\<close>.
\<close>

record imap_conn =
  owner :: string
  ready_once :: bool
  error_once :: bool
  ended_once :: bool
  mail_listeners :: nat
  box :: "int option"
  idle_throws :: bool
  fetch_throws :: bool
  end_throws :: bool

text \<open>A fetch issued by fetchNewEmails, with the closures of its listeners.\<close>

record new_fetch =
  f_owner :: string
  f_conn :: nat
  f_msgs :: msg_store
  f_error_once :: bool
  f_end_once :: bool

text \<open>
  What the service does to the outside, in program order. A library call that throws
  leaves no action, only the log entry of the \<open>catch\<close> that handles it.
\<close>

datatype action =
  NewImap nat
  | Connect nat
  | CallEnd nat
  | Idle nat
  | IdleStop nat
  | OnMail nat
  | CallInitialSync nat
  | SeqFetch nat nat int int
  | SetTimeout nat callback nat
  | ClearTimeout nat
  | Received int EmailDocument
  | Logged log_entry

text \<open>
  The three maps of the class (\<open>accounts\<close> keeps insertion order, which \<open>stopSync\<close>
  iterates), the objects and pending timeouts the runtime holds, the connections whose
  \<open>initialSync\<close> promise \<open>onImapReady\<close> awaits, and the trace of actions.
\<close>

record service =
  accountConfigs :: "ImapAccountConfig list"
  accounts :: "(string \<times> nat) list"
  connectionsActive :: "string \<rightharpoonup> bool"
  watchdogTimers :: "string \<rightharpoonup> nat"
  conns :: "imap_conn list"
  timeouts :: "(nat \<times> callback) list"
  next_timeout :: nat
  new_fetches :: "new_fetch list"
  syncing :: "nat list"
  trace :: "action list"

definition new_service :: "ImapAccountConfig list \<Rightarrow> service" where
  "new_service configs =
     (let s = \<lparr> accountConfigs = configs, accounts = [], connectionsActive = Map.empty,
                watchdogTimers = Map.empty, conns = [], timeouts = [], next_timeout = 0,
                new_fetches = [], syncing = [], trace = [] \<rparr>
      in if length configs = 0
         then s\<lparr> trace := [Logged (LogError ''No IMAP account configurations provided'')] \<rparr>
         else s)"

definition act :: "action \<Rightarrow> service \<Rightarrow> service" where
  "act a s = s\<lparr> trace := trace s @ [a] \<rparr>"

definition setTimeout :: "callback \<Rightarrow> nat \<Rightarrow> service \<Rightarrow> nat \<times> service" where
  "setTimeout cb ms s =
     (let t = next_timeout s
      in (t, act (SetTimeout t cb ms)
               (s\<lparr> timeouts := timeouts s @ [(t, cb)], next_timeout := t + 1 \<rparr>)))"

definition clearTimeout :: "nat \<Rightarrow> service \<Rightarrow> service" where
  "clearTimeout t s =
     act (ClearTimeout t) (s\<lparr> timeouts := filter (\<lambda>(h, cb). h \<noteq> t) (timeouts s) \<rparr>)"

definition new_conn :: "string \<Rightarrow> imap_conn" where
  "new_conn accId =
     \<lparr> owner = accId, ready_once = True, error_once = True, ended_once = True,
       mail_listeners = 0, box = None, idle_throws = False, fetch_throws = False,
       end_throws = False \<rparr>"

text \<open>
  connectAccount creates the \<open>Imap\<close> object, registers the three \<open>once\<close> listeners
  (\<open>new_conn\<close>), stores the connection and connects; the constructor and \<open>connect\<close>
  are taken not to throw.
\<close>

definition connectAccount :: "ImapAccountConfig \<Rightarrow> service \<Rightarrow> service" where
  "connectAccount config s =
     (let accId = user config;
          c = length (conns s);
          s1 = act (Logged (LogInfo (''Connecting to IMAP account: '' @ accId))) s;
          s2 = act (NewImap c) (s1\<lparr> conns := conns s1 @ [new_conn accId] \<rparr>);
          s3 = s2\<lparr> accounts := AList.update accId c (accounts s2) \<rparr>
      in act (Connect c) s3)"

definition startSync :: "service \<Rightarrow> service" where
  "startSync s = fold connectAccount (accountConfigs s) s"

definition cleanupConnection :: "string \<Rightarrow> service \<Rightarrow> service" where
  "cleanupConnection accId s =
     (let s1 = s\<lparr> connectionsActive := (connectionsActive s)(accId \<mapsto> False) \<rparr>
      in case watchdogTimers s1 accId of
           Some timer \<Rightarrow> (clearTimeout timer s1)\<lparr> watchdogTimers := (watchdogTimers s1)(accId := None) \<rparr>
         | None \<Rightarrow> s1)"

text \<open>The closure \<open>restartIdle\<close> of startIdleMode.\<close>

definition restartIdle :: "string \<Rightarrow> nat \<Rightarrow> service \<Rightarrow> service" where
  "restartIdle accId c s =
     (if connectionsActive s accId = Some True
      then (if idle_throws (conns s ! c)
            then act (Logged (LogError (''Error starting IDLE mode for '' @ accId @ '':''))) s
            else (let (watchdogTimer, s1) =
                        setTimeout (WatchdogRestart accId c) (29 * 60 * 1000) (act (Idle c) s)
                  in s1\<lparr> watchdogTimers := (watchdogTimers s1)(accId \<mapsto> watchdogTimer) \<rparr>))
      else s)"

definition startIdleMode :: "string \<Rightarrow> nat \<Rightarrow> service \<Rightarrow> service" where
  "startIdleMode accId c s =
     (let s1 = act (Logged (LogInfo (''Starting IDLE mode for account: '' @ accId))) s;
          conn = conns s1 ! c;
          s2 = act (OnMail c)
                 (s1\<lparr> conns := (conns s1)[c := conn\<lparr> mail_listeners := mail_listeners conn + 1 \<rparr>] \<rparr>)
      in restartIdle accId c s2)"

definition fetchNewEmails :: "string \<Rightarrow> nat \<Rightarrow> int \<Rightarrow> service \<Rightarrow> service" where
  "fetchNewEmails accId c numNewMsgs s =
     (let conn = conns s ! c;
          failed = (\<lambda>s0. startIdleMode accId c
                      (act (Logged (LogError (''Error handling new messages for '' @ accId @ '':''))) s0))
      in if idle_throws conn then failed s
         else (let s1 = act (IdleStop c) s
               in case box conn of
                    None \<Rightarrow> startIdleMode accId c
                              (act (Logged (LogError (''Mailbox not open for '' @ accId))) s1)
                  | Some msg_total \<Rightarrow>
                      (let lastMessages = msg_total - numNewMsgs + 1
                       in if fetch_throws conn then failed s1
                          else act (SeqFetch c (length (new_fetches s1)) lastMessages msg_total)
                                 (s1\<lparr> new_fetches := new_fetches s1 @
                                        [\<lparr> f_owner = accId, f_conn = c, f_msgs = Map.empty,
                                           f_error_once = True, f_end_once = True \<rparr>] \<rparr>))))"

text \<open>
  onImapReady up to its first \<open>await\<close>; the rest of its \<open>try\<close> runs when the promise of
  initialSync settles (\<open>onSyncSettled\<close>).
\<close>

definition onImapReady :: "string \<Rightarrow> nat \<Rightarrow> service \<Rightarrow> service" where
  "onImapReady accId c s =
     (let s1 = act (Logged (LogInfo (''IMAP connection ready for account: '' @ accId))) s;
          s2 = s1\<lparr> connectionsActive := (connectionsActive s1)(accId \<mapsto> True) \<rparr>
      in (act (CallInitialSync c) s2)\<lparr> syncing := syncing s2 @ [c] \<rparr>)"

definition onSyncSettled :: "string \<Rightarrow> nat \<Rightarrow> string option \<Rightarrow> service \<Rightarrow> service" where
  "onSyncSettled accId c err s =
     (case err of
        None \<Rightarrow> startIdleMode accId c s
      | Some e \<Rightarrow> act (Logged (LogError (''Error during initial sync for '' @ accId @ '':''))) s)"

definition onImapError :: "string \<Rightarrow> service \<Rightarrow> service" where
  "onImapError accId s =
     (let s1 = act (Logged (LogError (''IMAP error for account '' @ accId @ '':''))) s;
          s2 = cleanupConnection accId s1
      in snd (setTimeout (ReconnectByUser accId) 30000 s2))"

definition onImapEnd :: "string \<Rightarrow> service \<Rightarrow> service" where
  "onImapEnd accId s =
     (let s1 = act (Logged (LogInfo (''IMAP connection ended for account: '' @ accId))) s;
          s2 = cleanupConnection accId s1
      in if connectionsActive s2 accId = Some True
         then (case find (\<lambda>cfg. user cfg = accId) (accountConfigs s2) of
                 Some config \<Rightarrow>
                   snd (setTimeout (ReconnectWith config) 5000
                          (act (Logged (LogInfo (''Attempting to reconnect to account: '' @ accId))) s2))
               | None \<Rightarrow> s2)
         else s2)"

text \<open>The body of a timeout's callback, run when the timeout expires.\<close>

definition run_callback :: "callback \<Rightarrow> service \<Rightarrow> service" where
  "run_callback cb s =
     (case cb of
        ReconnectByUser accId \<Rightarrow>
          (case find (\<lambda>cfg. user cfg = accId) (accountConfigs s) of
             Some config \<Rightarrow> connectAccount config s
           | None \<Rightarrow> s)
      | ReconnectWith config \<Rightarrow> connectAccount config s
      | WatchdogRestart accId c \<Rightarrow>
          (let s1 = act (Logged (LogDebug (''Restarting IDLE for '' @ accId @ '' (watchdog)''))) s
           in if idle_throws (conns s1 ! c)
              then act (Logged (LogError (''Error in IDLE watchdog for '' @ accId @ '':''))) s1
              else restartIdle accId c (act (IdleStop c) s1)))"

definition stopSync :: "service \<Rightarrow> service" where
  "stopSync s =
     (let body = (\<lambda>(accId, c) s0.
            let s1 = s0\<lparr> connectionsActive := (connectionsActive s0)(accId \<mapsto> False) \<rparr>;
                s2 = (case watchdogTimers s1 accId of
                        Some timer \<Rightarrow> (clearTimeout timer s1)\<lparr> watchdogTimers := (watchdogTimers s1)(accId := None) \<rparr>
                      | None \<Rightarrow> s1)
            in if end_throws (conns s2 ! c)
               then act (Logged (LogError (''Error closing IMAP connection for '' @ accId @ '':''))) s2
               else act (Logged (LogInfo (''Closed IMAP connection for '' @ accId))) (act (CallEnd c) s2));
          s3 = fold body (accounts s) s
      in s3\<lparr> accounts := [], connectionsActive := Map.empty, watchdogTimers := Map.empty \<rparr>)"

text \<open>
  What reaches the service: the events of its connections, expired timeouts, the settling
  of an initialSync promise, the events of a fetch issued by fetchNewEmails, changes the
  library makes to a connection, and the two public calls.
\<close>

datatype event =
  ImapReady nat
  | ImapError nat
  | ImapEnd nat
  | ImapMail nat int
  | Timeout nat
  | SyncSettled nat "string option"
  | NewFetch nat fetch_event
  | BoxChanged nat "int option"
  | Throws nat bool bool bool
  | StartSync
  | StopSync

definition on_new_fetch :: "(string \<Rightarrow> parsed_header) \<Rightarrow> (string \<Rightarrow> string + ParsedMail)
    \<Rightarrow> nat \<Rightarrow> fetch_event \<Rightarrow> service \<Rightarrow> service" where
  "on_new_fetch ph sp f fev s =
     (let nf = new_fetches s ! f in
      case fev of
        Deliver d \<Rightarrow>
          (let (st1, out) = store_step ph sp (f_owner nf) d (f_msgs nf)
           in s\<lparr> new_fetches := (new_fetches s)[f := nf\<lparr> f_msgs := st1 \<rparr>],
                 trace := trace s @
                   map (\<lambda>(n, x). case x of Emit e \<Rightarrow> Received n e | Log l \<Rightarrow> Logged l) out \<rparr>)
      | FetchError e \<Rightarrow>
          (if f_error_once nf
           then act (Logged (LogError (''Error fetching new messages for '' @ f_owner nf @ '':'')))
                  (s\<lparr> new_fetches := (new_fetches s)[f := nf\<lparr> f_error_once := False \<rparr>] \<rparr>)
           else s)
      | FetchEnd \<Rightarrow>
          (if f_end_once nf
           then startIdleMode (f_owner nf) (f_conn nf)
                  (act (Logged (LogDebug (''Finished fetching new messages for '' @ f_owner nf)))
                     (s\<lparr> new_fetches := (new_fetches s)[f := nf\<lparr> f_end_once := False \<rparr>] \<rparr>))
           else s))"

fun step :: "(string \<Rightarrow> parsed_header) \<Rightarrow> (string \<Rightarrow> string + ParsedMail) \<Rightarrow> event \<Rightarrow> service \<Rightarrow> service" where
  "step ph sp (ImapReady c) s =
     (if c < length (conns s) \<and> ready_once (conns s ! c)
      then onImapReady (owner (conns s ! c)) c
             (s\<lparr> conns := (conns s)[c := (conns s ! c)\<lparr> ready_once := False \<rparr>] \<rparr>)
      else s)"
| "step ph sp (ImapError c) s =
     (if c < length (conns s) \<and> error_once (conns s ! c)
      then onImapError (owner (conns s ! c))
             (s\<lparr> conns := (conns s)[c := (conns s ! c)\<lparr> error_once := False \<rparr>] \<rparr>)
      else s)"
| "step ph sp (ImapEnd c) s =
     (if c < length (conns s) \<and> ended_once (conns s ! c)
      then onImapEnd (owner (conns s ! c))
             (s\<lparr> conns := (conns s)[c := (conns s ! c)\<lparr> ended_once := False \<rparr>] \<rparr>)
      else s)"
| "step ph sp (ImapMail c numNewMsgs) s =
     (if c < length (conns s)
      then ((\<lambda>s0. fetchNewEmails (owner (conns s ! c)) c numNewMsgs
                    (act (Logged (LogInfo (show_int numNewMsgs @ '' new message(s) arrived for ''
                                             @ owner (conns s ! c)))) s0))
            ^^ mail_listeners (conns s ! c)) s
      else s)"
| "step ph sp (Timeout t) s =
     (case map_of (timeouts s) t of
        Some cb \<Rightarrow> run_callback cb (s\<lparr> timeouts := filter (\<lambda>(h, cb). h \<noteq> t) (timeouts s) \<rparr>)
      | None \<Rightarrow> s)"
| "step ph sp (SyncSettled c err) s =
     (if c \<in> set (syncing s)
      then onSyncSettled (owner (conns s ! c)) c err (s\<lparr> syncing := remove1 c (syncing s) \<rparr>)
      else s)"
| "step ph sp (NewFetch f fev) s =
     (if f < length (new_fetches s) then on_new_fetch ph sp f fev s else s)"
| "step ph sp (BoxChanged c b) s =
     (if c < length (conns s)
      then s\<lparr> conns := (conns s)[c := (conns s ! c)\<lparr> box := b \<rparr>] \<rparr>
      else s)"
| "step ph sp (Throws c i f e) s =
     (if c < length (conns s)
      then s\<lparr> conns := (conns s)[c := (conns s ! c)\<lparr> idle_throws := i, fetch_throws := f, end_throws := e \<rparr>] \<rparr>
      else s)"
| "step ph sp StartSync s = startSync s"
| "step ph sp StopSync s = stopSync s"

definition run :: "(string \<Rightarrow> parsed_header) \<Rightarrow> (string \<Rightarrow> string + ParsedMail) \<Rightarrow> service \<Rightarrow> event list \<Rightarrow> service" where
  "run ph sp s evs = fold (step ph sp) evs s"

text \<open>The sequence numbers of the records the service emitted, in emission order.\<close>

definition received_seqnos :: "action list \<Rightarrow> int list" where
  "received_seqnos tr = concat (map (\<lambda>a. case a of Received n e \<Rightarrow> [n] | _ \<Rightarrow> []) tr)"

text \<open>The ranges of the fetches that fetchNewEmails issued, in the order of issue.\<close>

definition seq_fetches :: "action list \<Rightarrow> (int \<times> int) list" where
  "seq_fetches tr = concat (map (\<lambda>a. case a of SeqFetch c f lo hi \<Rightarrow> [(lo, hi)] | _ \<Rightarrow> []) tr)"

text \<open>The fetches issued by fetchNewEmails whose 'end' event has not been delivered.\<close>

definition in_flight :: "service \<Rightarrow> nat list" where
  "in_flight s = map fst (filter (\<lambda>(f, nf). f_end_once nf) (enumerate 0 (new_fetches s)))"


section \<open>Stand-ins for the two parsing libraries, used in the examples\<close>

text \<open>A header parser that reads a non-empty buffer as the value of the subject field.\<close>

definition demo_parseHeader :: "string \<Rightarrow> parsed_header" where
  "demo_parseHeader buffer =
     (if buffer = [] then Map.empty else [''subject'' \<mapsto> [buffer]])"

text \<open>A body parser that rejects buffers starting with \<open>!\<close> and returns the others as text.\<close>

definition demo_simpleParser :: "string \<Rightarrow> string + ParsedMail" where
  "demo_simpleParser buffer =
     (if prefix ''!'' buffer then Inl ''malformed''
      else Inr \<lparr> parsed_text = Some buffer, parsed_html = None, parsed_attachments = [] \<rparr>)"

definition demo_config :: ImapAccountConfig where
  "demo_config = \<lparr> user = ''a'', password = ''p'', host = ''h'', port = 993, tls = True \<rparr>"











text \<open>
  A service with one account that idles, is notified of one new message (the mailbox then
  holds 11), fetches it, sees the fetch end, and whose mailbox then grows to 12 messages.
\<close>

definition demo_after_fetch :: service where
  "demo_after_fetch =
     run demo_parseHeader demo_simpleParser (new_service [demo_config])
       [StartSync, ImapReady 0, SyncSettled 0 None, BoxChanged 0 (Some 11),
        ImapMail 0 1, NewFetch 0 FetchEnd, BoxChanged 0 (Some 12)]"

text \<open>
  The events by which the fetch with handle \<open>f\<close> delivers the message with sequence
  number \<open>n\<close>: its header, its text, its attributes and its end, in this order.
\<close>

definition demo_mail :: "nat \<Rightarrow> int \<Rightarrow> event list" where
  "demo_mail f n =
     [NewFetch f (Deliver (Message n ''u'' 0)),
      NewFetch f (Deliver (Part n (BodyEnd ''HEADER.FIELDS (FROM TO CC BCC SUBJECT DATE)'' ''Hi'' 1))),
      NewFetch f (Deliver (Part n (BodyEnd ''TEXT'' ''hello'' 2))),
      NewFetch f (Deliver (Part n (Attributes \<lparr> uid = 100 + nat n, flags = None \<rparr>))),
      NewFetch f (Deliver (Part n MsgEnd))]"

text \<open>
  The same service as \<open>demo_after_fetch\<close>, except that the mailbox grows to 13 messages
  after the first fetch has ended.
\<close>

definition demo_two_listeners :: service where
  "demo_two_listeners =
     run demo_parseHeader demo_simpleParser (new_service [demo_config])
       [StartSync, ImapReady 0, SyncSettled 0 None, BoxChanged 0 (Some 11),
        ImapMail 0 1, NewFetch 0 FetchEnd, BoxChanged 0 (Some 13)]"

text \<open>
  Then the notification of the two new messages arrives, and the connection serves the
  fetches in the order of issue, each delivering the messages 12 and 13 in ascending
  order.
\<close>

definition demo_second_notification :: service where
  "demo_second_notification =
     run demo_parseHeader demo_simpleParser (new_service [demo_config])
       ([StartSync, ImapReady 0, SyncSettled 0 None, BoxChanged 0 (Some 11),
         ImapMail 0 1, NewFetch 0 FetchEnd, BoxChanged 0 (Some 13), ImapMail 0 2]
        @ demo_mail 1 12 @ demo_mail 1 13 @ demo_mail 2 12 @ demo_mail 2 13)"

text \<open>
  An initial sync whose search returns the one sequence number 5 and whose fetch has
  delivered the 'message' event of that message, and nothing more.
\<close>

definition demo_fetching_sync :: sync_state where
  "demo_fetching_sync =
     fst (sync_run demo_parseHeader demo_simpleParser ''a'' (fst (initialSync ''a'' None))
            [OpenBoxDone None 1, SearchDone None [5], OfFetch 0 (Deliver (Message 5 ''u'' 0))])"

text \<open>
  A service whose one account idles, is notified of one new message and has issued the
  fetch, which has delivered the 'message' event of message 11, and nothing more.
\<close>

definition demo_fetching_service :: service where
  "demo_fetching_service =
     run demo_parseHeader demo_simpleParser (new_service [demo_config])
       [StartSync, ImapReady 0, SyncSettled 0 None, BoxChanged 0 (Some 11),
        ImapMail 0 1, NewFetch 0 (Deliver (Message 11 ''u'' 0))]"

section \<open>The invariant of initialSync\<close>



section \<open>Properties of the Message Normalizer\<close>

lemma msg_run_append:
  "msg_run ph sp acc m (xs @ ys) =
     (let (m1, o1) = msg_run ph sp acc m xs; (m2, o2) = msg_run ph sp acc m1 ys in (m2, o1 @ o2))"
  by (induction xs arbitrary: m) (auto split: prod.splits)

lemma emitted_append: "emitted (xs @ ys) = emitted xs @ emitted ys"
  by (simp add: emitted_def)

lemma emitted_simps [simp]:
  "emitted [] = []" "emitted (Emit e # xs) = e # emitted xs" "emitted (Log l # xs) = emitted xs"
  by (simp_all add: emitted_def)

lemma emitted_map_Log: "emitted (map Log ls) = []"
  by (induction ls) auto

lemma msg_step_no_end:
  "ev \<noteq> MsgEnd \<Longrightarrow>
   emitted (snd (msg_step ph sp acc ev m)) = [] \<and> end_once (fst (msg_step ph sp acc ev m)) = end_once m"
  by (cases ev) (auto simp: emitted_map_Log split: prod.splits)

lemma msg_run_no_end:
  "MsgEnd \<notin> set evs \<Longrightarrow>
   emitted (snd (msg_run ph sp acc m evs)) = [] \<and> end_once (fst (msg_run ph sp acc m evs)) = end_once m"
proof (induction evs arbitrary: m)
  case Nil
  then show ?case by simp
next
  case (Cons ev evs)
  obtain m1 o1 where s: "msg_step ph sp acc ev m = (m1, o1)" by (cases "msg_step ph sp acc ev m")
  from Cons.prems have ne: "ev \<noteq> MsgEnd" and rest: "MsgEnd \<notin> set evs" by auto
  from msg_step_no_end[OF ne, of ph sp acc m] s have a: "emitted o1 = []" "end_once m1 = end_once m" by auto
  from Cons.IH[OF rest, of m1] a s show ?case
    by (auto simp: emitted_append split: prod.splits)
qed

lemma msg_step_ended:
  "\<not> end_once m \<Longrightarrow>
   emitted (snd (msg_step ph sp acc ev m)) = [] \<and> \<not> end_once (fst (msg_step ph sp acc ev m))"
  by (cases ev) (auto simp: emitted_map_Log split: prod.splits)

lemma msg_run_ended:
  "\<not> end_once m \<Longrightarrow> emitted (snd (msg_run ph sp acc m evs)) = []"
proof (induction evs arbitrary: m)
  case Nil
  then show ?case by simp
next
  case (Cons ev evs)
  obtain m1 o1 where s: "msg_step ph sp acc ev m = (m1, o1)" by (cases "msg_step ph sp acc ev m")
  from msg_step_ended[OF Cons.prems, of ph sp acc ev] s have a: "emitted o1 = []" "\<not> end_once m1" by auto
  from Cons.IH[OF a(2)] a s show ?case
    by (auto simp: emitted_append split: prod.splits)
qed

lemma js_truthy_iff: "js_truthy v \<longleftrightarrow> (\<exists>s. v = Some s \<and> s \<noteq> [])"
  by (cases v) (auto simp: js_truthy_def)

text \<open>
  C3. Whatever events a message delivers before its 'end' and after it, a record is
  emitted for the message exactly when, at the 'end' event, its subject and its body are
  both present and non-empty, and the record is the email as it stands at that moment; so
  a message with an empty body is dropped whatever its subject.
\<close>

theorem emitted_iff_subject_and_body:
  assumes "MsgEnd \<notin> set pre"
  shows "emitted (snd (msg_run ph sp acc (new_closure acc uuid now) (pre @ MsgEnd # post))) =
     (let e = email (fst (msg_run ph sp acc (new_closure acc uuid now) pre)) in
      if (\<exists>s. subject e = Some s \<and> s \<noteq> []) \<and> (\<exists>b. body e = Some b \<and> b \<noteq> []) then [e] else [])"
proof -
  obtain m1 o1 where r: "msg_run ph sp acc (new_closure acc uuid now) pre = (m1, o1)"
    by (cases "msg_run ph sp acc (new_closure acc uuid now) pre")
  from msg_run_no_end[OF assms, of ph sp acc "new_closure acc uuid now"] r
  have a: "emitted o1 = []" "end_once m1" by (auto simp: new_closure_def)
  obtain m2 o2 where r2: "msg_run ph sp acc (m1\<lparr>end_once := False\<rparr>) post = (m2, o2)"
    by (cases "msg_run ph sp acc (m1\<lparr>end_once := False\<rparr>) post")
  from msg_run_ended[of "m1\<lparr>end_once := False\<rparr>" ph sp acc post] r2 have b: "emitted o2 = []" by simp
  show ?thesis using r a r2 b
    by (simp add: msg_run_append emitted_append emittable_def js_truthy_iff Let_def)
qed

lemmas normalizer_defs =
  new_closure_def new_email_def on_header_def on_text_def on_attributes_def emittable_def
  js_truthy_def first_of_def or_else_def or_empty_def demo_parseHeader_def demo_simpleParser_def
  Let_def

text \<open>
  A message whose header gives the subject \<open>Hi\<close> and whose text part is empty: at its
  'end' the subject is present and the body is the empty string, and nothing is emitted.
\<close>

theorem emitted_iff_subject_and_body_witness:
  "MsgEnd \<notin> set [BodyEnd ''HEADER.FIELDS (FROM TO CC BCC SUBJECT DATE)'' ''Hi'' 1,
                   BodyEnd ''TEXT'' '''' 2, Attributes \<lparr> uid = 7, flags = None \<rparr>]
   \<and> subject (email (fst (msg_run demo_parseHeader demo_simpleParser ''a'' (new_closure ''a'' ''u'' 0)
         [BodyEnd ''HEADER.FIELDS (FROM TO CC BCC SUBJECT DATE)'' ''Hi'' 1,
          BodyEnd ''TEXT'' '''' 2, Attributes \<lparr> uid = 7, flags = None \<rparr>]))) = Some ''Hi''
   \<and> body (email (fst (msg_run demo_parseHeader demo_simpleParser ''a'' (new_closure ''a'' ''u'' 0)
         [BodyEnd ''HEADER.FIELDS (FROM TO CC BCC SUBJECT DATE)'' ''Hi'' 1,
          BodyEnd ''TEXT'' '''' 2, Attributes \<lparr> uid = 7, flags = None \<rparr>]))) = Some ''''
   \<and> emitted (snd (msg_run demo_parseHeader demo_simpleParser ''a'' (new_closure ''a'' ''u'' 0)
         ([BodyEnd ''HEADER.FIELDS (FROM TO CC BCC SUBJECT DATE)'' ''Hi'' 1,
           BodyEnd ''TEXT'' '''' 2, Attributes \<lparr> uid = 7, flags = None \<rparr>] @ MsgEnd # []))) = []"
  using emitted_iff_subject_and_body
    [of "[BodyEnd ''HEADER.FIELDS (FROM TO CC BCC SUBJECT DATE)'' ''Hi'' 1,
          BodyEnd ''TEXT'' '''' 2, Attributes \<lparr> uid = 7, flags = None \<rparr>]"
        demo_parseHeader demo_simpleParser "''a''" "''u''" 0 "[]"]
  by (simp add: normalizer_defs)

lemma msg_step_id_fixed:
  "\<not> attrs_once m \<Longrightarrow>
   \<not> attrs_once (fst (msg_step ph sp acc ev m)) \<and>
   email_id (email (fst (msg_step ph sp acc ev m))) = email_id (email m) \<and>
   (\<forall>e. Emit e \<in> set (snd (msg_step ph sp acc ev m)) \<longrightarrow> email_id e = email_id (email m))"
  by (cases ev) (auto simp: on_header_def on_text_def Let_def split: prod.splits sum.splits if_splits)

lemma msg_run_id_fixed:
  "\<not> attrs_once m \<Longrightarrow> Emit e \<in> set (snd (msg_run ph sp acc m evs)) \<Longrightarrow>
   email_id e = email_id (email m)"
proof (induction evs arbitrary: m)
  case Nil
  then show ?case by simp
next
  case (Cons ev evs)
  obtain m1 o1 where s: "msg_step ph sp acc ev m = (m1, o1)" by (cases "msg_step ph sp acc ev m")
  from msg_step_id_fixed[OF Cons.prems(1), of ph sp acc ev] s
  have a: "\<not> attrs_once m1" "email_id (email m1) = email_id (email m)"
    "\<forall>e. Emit e \<in> set o1 \<longrightarrow> email_id e = email_id (email m)" by auto
  from Cons.prems(2) s have "Emit e \<in> set o1 \<or> Emit e \<in> set (snd (msg_run ph sp acc m1 evs))"
    by (auto split: prod.splits)
  then show ?case using a Cons.IH[OF a(1)] by auto
qed

lemma msg_step_quiet:
  "ev \<noteq> MsgEnd \<Longrightarrow> (\<forall>a. ev \<noteq> Attributes a) \<Longrightarrow>
   attrs_once (fst (msg_step ph sp acc ev m)) = attrs_once m \<and>
   (\<forall>e. Emit e \<notin> set (snd (msg_step ph sp acc ev m)))"
  by (cases ev) (auto split: prod.splits)

lemma msg_run_quiet:
  "\<forall>ev\<in>set evs. ev \<noteq> MsgEnd \<and> (\<forall>a. ev \<noteq> Attributes a) \<Longrightarrow>
   attrs_once (fst (msg_run ph sp acc m evs)) = attrs_once m \<and>
   (\<forall>e. Emit e \<notin> set (snd (msg_run ph sp acc m evs)))"
proof (induction evs arbitrary: m)
  case Nil
  then show ?case by simp
next
  case (Cons ev evs)
  obtain m1 o1 where s: "msg_step ph sp acc ev m = (m1, o1)" by (cases "msg_step ph sp acc ev m")
  from Cons.prems have q: "ev \<noteq> MsgEnd" "\<forall>a. ev \<noteq> Attributes a"
    and rest: "\<forall>ev\<in>set evs. ev \<noteq> MsgEnd \<and> (\<forall>a. ev \<noteq> Attributes a)" by auto
  from msg_step_quiet[OF q, of ph sp acc m] s
  have a: "attrs_once m1 = attrs_once m" "\<forall>e. Emit e \<notin> set o1" by auto
  from Cons.IH[OF rest, of m1] a s show ?case by (auto split: prod.splits)
qed

lemma emitted_id_after_attributes:
  assumes quiet: "\<forall>ev\<in>set pre. ev \<noteq> MsgEnd \<and> (\<forall>a. ev \<noteq> Attributes a)"
    and em: "Emit e \<in> set (snd (msg_run ph sp acc (new_closure acc uuid now) (pre @ Attributes attrs # post)))"
  shows "email_id e = acc @ ''-'' @ show_nat (uid attrs)"
proof -
  obtain m1 o1 where r: "msg_run ph sp acc (new_closure acc uuid now) pre = (m1, o1)"
    by (cases "msg_run ph sp acc (new_closure acc uuid now) pre")
  from msg_run_quiet[OF quiet, of ph sp acc "new_closure acc uuid now"] r
  have a: "attrs_once m1" "\<forall>e. Emit e \<notin> set o1" by (auto simp: new_closure_def)
  let ?m2 = "m1\<lparr> email := on_attributes acc attrs (email m1), attrs_once := False \<rparr>"
  from em r a have "Emit e \<in> set (snd (msg_run ph sp acc ?m2 post))"
    by (auto simp: msg_run_append split: prod.splits)
  from msg_run_id_fixed[OF _ this] show ?thesis by (simp add: on_attributes_def)
qed

text \<open>
  C2. Take two fetches of a message of one account, with whatever uuid the 'message'
  callback drew, whatever the clock and the parsers returned, and whatever other events
  were delivered, provided the 'attributes' event of each comes before its 'end' (as the
  IMAP library delivers them) and both carry the same server-assigned uid. Every record
  emitted by either fetch has the identifier accountId, a hyphen, and the uid in decimal;
  so both fetches give the same identifier.
\<close>

theorem identifier_is_account_and_uid:
  assumes "\<forall>ev\<in>set pre1. ev \<noteq> MsgEnd \<and> (\<forall>a. ev \<noteq> Attributes a)"
    and "\<forall>ev\<in>set pre2. ev \<noteq> MsgEnd \<and> (\<forall>a. ev \<noteq> Attributes a)"
    and "uid attrs1 = uid attrs2"
    and "Emit e1 \<in> set (snd (msg_run ph1 sp1 acc (new_closure acc uuid1 now1) (pre1 @ Attributes attrs1 # post1)))"
    and "Emit e2 \<in> set (snd (msg_run ph2 sp2 acc (new_closure acc uuid2 now2) (pre2 @ Attributes attrs2 # post2)))"
  shows "email_id e1 = acc @ ''-'' @ show_nat (uid attrs1) \<and> email_id e2 = email_id e1"
  using emitted_id_after_attributes[OF assms(1) assms(4)]
    emitted_id_after_attributes[OF assms(2) assms(5)] assms(3)
  by simp

text \<open>
  The message with uid 7 of account \<open>a\<close>, fetched once with the header first and once
  with the text first, under different uuids: both records carry the identifier \<open>a-7\<close>.
\<close>

theorem identifier_is_account_and_uid_witness:
  "uid \<lparr> uid = 7, flags = None \<rparr> = uid \<lparr> uid = 7, flags = Some [] \<rparr>
   \<and> emitted (snd (msg_run demo_parseHeader demo_simpleParser ''a'' (new_closure ''a'' ''u1'' 0)
        ([BodyEnd ''HEADER'' ''Hi'' 1, BodyEnd ''TEXT'' ''hello'' 2]
           @ Attributes \<lparr> uid = 7, flags = None \<rparr> # [MsgEnd])))
      = [on_attributes ''a'' \<lparr> uid = 7, flags = None \<rparr>
           (fst (on_text demo_simpleParser ''hello''
              (on_header demo_parseHeader 1 ''Hi'' (new_email ''a'' ''u1'' 0))))]
   \<and> emitted (snd (msg_run demo_parseHeader demo_simpleParser ''a'' (new_closure ''a'' ''u2'' 4)
        ([BodyEnd ''TEXT'' ''hello'' 5]
           @ Attributes \<lparr> uid = 7, flags = Some [] \<rparr> # [BodyEnd ''HEADER'' ''Hi'' 6, MsgEnd])))
      = [on_header demo_parseHeader 6 ''Hi''
           (on_attributes ''a'' \<lparr> uid = 7, flags = Some [] \<rparr>
              (fst (on_text demo_simpleParser ''hello'' (new_email ''a'' ''u2'' 4))))]
   \<and> email_id (on_attributes ''a'' \<lparr> uid = 7, flags = None \<rparr>
           (fst (on_text demo_simpleParser ''hello''
              (on_header demo_parseHeader 1 ''Hi'' (new_email ''a'' ''u1'' 0))))) = ''a-7''
   \<and> email_id (on_header demo_parseHeader 6 ''Hi''
           (on_attributes ''a'' \<lparr> uid = 7, flags = Some [] \<rparr>
              (fst (on_text demo_simpleParser ''hello'' (new_email ''a'' ''u2'' 4))))) = ''a-7''"
proof -
  let ?e1 = "on_attributes ''a'' \<lparr> uid = 7, flags = None \<rparr>
           (fst (on_text demo_simpleParser ''hello''
              (on_header demo_parseHeader 1 ''Hi'' (new_email ''a'' ''u1'' 0))))"
  let ?e2 = "on_header demo_parseHeader 6 ''Hi''
           (on_attributes ''a'' \<lparr> uid = 7, flags = Some [] \<rparr>
              (fst (on_text demo_simpleParser ''hello'' (new_email ''a'' ''u2'' 4))))"
  have q1: "\<forall>ev\<in>set [BodyEnd ''HEADER'' ''Hi'' 1, BodyEnd ''TEXT'' ''hello'' 2].
       ev \<noteq> MsgEnd \<and> (\<forall>a. ev \<noteq> Attributes a)" by simp
  have q2: "\<forall>ev\<in>set [BodyEnd ''TEXT'' ''hello'' 5]. ev \<noteq> MsgEnd \<and> (\<forall>a. ev \<noteq> Attributes a)"
    by simp
  have u: "uid \<lparr> uid = 7, flags = None \<rparr> = uid \<lparr> uid = 7, flags = Some [] \<rparr>" by simp
  have r1: "snd (msg_run demo_parseHeader demo_simpleParser ''a'' (new_closure ''a'' ''u1'' 0)
        ([BodyEnd ''HEADER'' ''Hi'' 1, BodyEnd ''TEXT'' ''hello'' 2]
           @ Attributes \<lparr> uid = 7, flags = None \<rparr> # [MsgEnd])) = [Emit ?e1]"
    by (simp add: normalizer_defs)
  have r2: "snd (msg_run demo_parseHeader demo_simpleParser ''a'' (new_closure ''a'' ''u2'' 4)
        ([BodyEnd ''TEXT'' ''hello'' 5]
           @ Attributes \<lparr> uid = 7, flags = Some [] \<rparr> # [BodyEnd ''HEADER'' ''Hi'' 6, MsgEnd])) = [Emit ?e2]"
    by (simp add: normalizer_defs)
  have m1: "Emit ?e1 \<in> set (snd (msg_run demo_parseHeader demo_simpleParser ''a'' (new_closure ''a'' ''u1'' 0)
        ([BodyEnd ''HEADER'' ''Hi'' 1, BodyEnd ''TEXT'' ''hello'' 2]
           @ Attributes \<lparr> uid = 7, flags = None \<rparr> # [MsgEnd])))"
    by (simp only: r1 list.set insertI1)
  have m2: "Emit ?e2 \<in> set (snd (msg_run demo_parseHeader demo_simpleParser ''a'' (new_closure ''a'' ''u2'' 4)
        ([BodyEnd ''TEXT'' ''hello'' 5]
           @ Attributes \<lparr> uid = 7, flags = Some [] \<rparr> # [BodyEnd ''HEADER'' ''Hi'' 6, MsgEnd])))"
    by (simp only: r2 list.set insertI1)
  have s7: "show_nat 7 = ''7''" by (simp add: show_nat.simps digit_def)
  from identifier_is_account_and_uid[OF q1 q2 u m1 m2]
  have ids: "email_id ?e1 = ''a-7''" "email_id ?e2 = ''a-7''" by (simp_all add: s7)
  from u r1 r2 ids show ?thesis by (simp only: emitted_simps snd_conv simp_thms)
qed

text \<open>
  C10. When the parsed header of a message has no subject field, the header callback
  sets the record's subject to the placeholder \<open>(No Subject)\<close>.
\<close>

theorem missing_subject_gets_placeholder:
  assumes "prefix ''HEADER'' which" and "ph buffer ''subject'' = None"
  shows "subject (email (fst (msg_step ph sp acc (BodyEnd which buffer now) m))) = Some ''(No Subject)''"
  using assms by (simp add: on_header_def first_of_def or_else_def Let_def)

theorem missing_subject_gets_placeholder_witness:
  "prefix ''HEADER'' ''HEADER.FIELDS (FROM TO CC BCC SUBJECT DATE)''
   \<and> demo_parseHeader '''' ''subject'' = None
   \<and> subject (email (fst (msg_step demo_parseHeader demo_simpleParser ''a''
        (BodyEnd ''HEADER.FIELDS (FROM TO CC BCC SUBJECT DATE)'' '''' 3) (new_closure ''a'' ''u'' 0))))
      = Some ''(No Subject)''"
proof -
  have p: "prefix ''HEADER'' ''HEADER.FIELDS (FROM TO CC BCC SUBJECT DATE)''" by simp
  have n: "demo_parseHeader '''' ''subject'' = None" by (simp add: demo_parseHeader_def)
  from p n missing_subject_gets_placeholder
      [where which = "''HEADER.FIELDS (FROM TO CC BCC SUBJECT DATE)''" and ph = demo_parseHeader
         and buffer = "''''" and sp = demo_simpleParser and acc = "''a''" and now = 3
         and m = "new_closure ''a'' ''u'' 0"]
  show ?thesis by blast
qed

text \<open>
  C7, as the claim states it, fails: the body of this message fails to parse, and the
  message is emitted all the same, with the raw text of the part as its body.
\<close>

theorem parse_failure_dropped_counterexample:
  "demo_simpleParser ''!raw'' = Inl ''malformed''
   \<and> map body (emitted (snd (msg_run demo_parseHeader demo_simpleParser ''a'' (new_closure ''a'' ''u'' 0)
        [BodyEnd ''HEADER.FIELDS (FROM TO CC BCC SUBJECT DATE)'' ''Hi'' 1,
         BodyEnd ''TEXT'' ''!raw'' 2, Attributes \<lparr> uid = 7, flags = None \<rparr>, MsgEnd])))
      = [Some ''!raw'']"
  by (simp add: normalizer_defs)

lemmas service_defs =
  run_def new_service_def startSync_def connectAccount_def act_def new_conn_def
  onImapReady_def onSyncSettled_def startIdleMode_def restartIdle_def setTimeout_def
  clearTimeout_def cleanupConnection_def onImapError_def onImapEnd_def run_callback_def
  stopSync_def fetchNewEmails_def on_new_fetch_def in_flight_def demo_config_def Let_def

lemma show_int_1: "show_int 1 = ''1''"
  by (simp add: show_int_def show_nat.simps digit_def)

lemma show_int_2: "show_int 2 = ''2''"
  by (simp add: show_int_def show_nat.simps digit_def)

lemma emitted_at_end:
  assumes "MsgEnd \<notin> set evs"
  shows "emitted (snd (msg_run ph sp acc (new_closure acc uuid now) (evs @ MsgEnd # post))) =
     (if emittable (email (fst (msg_run ph sp acc (new_closure acc uuid now) evs)))
      then [email (fst (msg_run ph sp acc (new_closure acc uuid now) evs))] else [])"
proof -
  obtain m1 o1 where r: "msg_run ph sp acc (new_closure acc uuid now) evs = (m1, o1)"
    by (cases "msg_run ph sp acc (new_closure acc uuid now) evs")
  from msg_run_no_end[OF assms, of ph sp acc "new_closure acc uuid now"] r
  have a: "emitted o1 = []" "end_once m1" by (auto simp: new_closure_def)
  obtain m2 o2 where r2: "msg_run ph sp acc (m1\<lparr>end_once := False\<rparr>) post = (m2, o2)"
    by (cases "msg_run ph sp acc (m1\<lparr>end_once := False\<rparr>) post")
  from msg_run_ended[of "m1\<lparr>end_once := False\<rparr>" ph sp acc post] r2 have b: "emitted o2 = []" by simp
  show ?thesis using r a r2 b
    by (simp add: msg_run_append emitted_append)
qed

lemma msg_step_end_consumed:
  "ev = MsgEnd \<or> \<not> end_once m \<Longrightarrow> \<not> end_once (fst (msg_step ph sp acc ev m))"
  by (cases ev) (auto split: prod.splits)

lemma msg_run_end_consumed:
  "MsgEnd \<in> set evs \<or> \<not> end_once m \<Longrightarrow> \<not> end_once (fst (msg_run ph sp acc m evs))"
proof (induction evs arbitrary: m)
  case Nil
  then show ?case by simp
next
  case (Cons ev evs)
  obtain m1 o1 where s: "msg_step ph sp acc ev m = (m1, o1)" by (cases "msg_step ph sp acc ev m")
  show ?case
  proof (cases "ev = MsgEnd \<or> \<not> end_once m")
    case True
    from msg_step_end_consumed[OF True, of ph sp acc] s have "\<not> end_once m1" by simp
    then have "MsgEnd \<in> set evs \<or> \<not> end_once m1" by simp
    from Cons.IH[OF this] s show ?thesis by (auto split: prod.splits)
  next
    case False
    with Cons.prems have "MsgEnd \<in> set evs \<or> \<not> end_once m1" by auto
    from Cons.IH[OF this] s show ?thesis by (auto split: prod.splits)
  qed
qed

lemma msg_step_keeps_body:
  "ev \<noteq> MsgEnd \<and> (\<forall>w b t. ev = BodyEnd w b t \<longrightarrow> prefix ''HEADER'' w) \<Longrightarrow>
   body (email (fst (msg_step ph sp acc ev m))) = body (email m)"
  by (cases ev) (auto simp: on_header_def on_attributes_def Let_def)

lemma msg_run_keeps_body:
  "\<forall>ev\<in>set evs. ev \<noteq> MsgEnd \<and> (\<forall>w b t. ev = BodyEnd w b t \<longrightarrow> prefix ''HEADER'' w) \<Longrightarrow>
   body (email (fst (msg_run ph sp acc m evs))) = body (email m)"
proof (induction evs arbitrary: m)
  case Nil
  then show ?case by simp
next
  case (Cons ev evs)
  obtain m1 o1 where s: "msg_step ph sp acc ev m = (m1, o1)" by (cases "msg_step ph sp acc ev m")
  from Cons.prems have q: "ev \<noteq> MsgEnd \<and> (\<forall>w b t. ev = BodyEnd w b t \<longrightarrow> prefix ''HEADER'' w)"
    and rest: "\<forall>ev\<in>set evs. ev \<noteq> MsgEnd \<and> (\<forall>w b t. ev = BodyEnd w b t \<longrightarrow> prefix ''HEADER'' w)"
    by auto
  from msg_step_keeps_body[OF q, of ph sp acc m] s have "body (email m1) = body (email m)" by simp
  with Cons.IH[OF rest, of m1] s show ?case by (auto split: prod.splits)
qed

lemma failing_text_step:
  assumes "\<not> prefix ''HEADER'' which" and "sp buffer = Inl err"
  shows "msg_step ph sp acc (BodyEnd which buffer now) c =
           (c\<lparr> email := (email c)\<lparr> body := Some buffer \<rparr> \<rparr>,
            [Log (LogError (''Error parsing email body: '' @ err))])"
  using assms by (simp add: on_text_def)

text \<open>
  C7, amended. When the text part of a message fails to parse, the callback logs the
  failure, sets the record's body to the raw text of the part and does nothing else.
  The message is not dropped on that account. If the failure comes before the message's
  'end' and only header parts and attributes follow before the 'end', the body is still
  the raw text at the 'end', and the record is emitted exactly when its subject is then
  present and non-empty and the raw text is not empty. If the failure comes after the
  'end', what the message emitted is unchanged. Nothing is aborted: in an initial sync
  the event leaves only the log entry, rejects nothing and changes nothing of the fetch
  but the message's record (the batches, the counter and the fetch's listeners stay); in
  a fetch of new mail the service's trace gains only the log entry and everything but
  the message's record stays, the connection included.
\<close>

theorem parse_failure_falls_back_to_raw:
  assumes nh: "\<not> prefix ''HEADER'' which" and fail: "sp buffer = Inl err"
    and alive: "MsgEnd \<notin> set pre"
    and quiet: "\<forall>ev\<in>set mid. ev \<noteq> MsgEnd \<and> (\<forall>w b t. ev = BodyEnd w b t \<longrightarrow> prefix ''HEADER'' w)"
    and over: "MsgEnd \<in> set fin"
    and bi: "i < length (fetches s)" and bm: "msgs (fetches s ! i) n = Some m"
    and ni: "j < length (new_fetches sv)" and nm: "f_msgs (new_fetches sv ! j) k = Some m'"
  shows "msg_step ph sp acc (BodyEnd which buffer now) c =
           (c\<lparr> email := (email c)\<lparr> body := Some buffer \<rparr> \<rparr>,
            [Log (LogError (''Error parsing email body: '' @ err))])
       \<and> body (email (fst (msg_run ph sp acc (new_closure acc uuid t0)
                              (pre @ BodyEnd which buffer now # mid)))) = Some buffer
       \<and> emitted (snd (msg_run ph sp acc (new_closure acc uuid t0)
                         (pre @ BodyEnd which buffer now # mid @ MsgEnd # post))) =
           (if js_truthy (subject (email (fst (msg_run ph sp acc (new_closure acc uuid t0)
                                                 (pre @ BodyEnd which buffer now # mid)))))
               \<and> buffer \<noteq> []
            then [email (fst (msg_run ph sp acc (new_closure acc uuid t0)
                                (pre @ BodyEnd which buffer now # mid)))]
            else [])
       \<and> emitted (snd (msg_run ph sp acc (new_closure acc uuid t0)
                         (fin @ BodyEnd which buffer now # post))) =
           emitted (snd (msg_run ph sp acc (new_closure acc uuid t0) fin))
       \<and> on_fetch_event ph sp acc i (Deliver (Part n (BodyEnd which buffer now))) s =
           (s\<lparr> fetches := (fetches s)
                  [i := (fetches s ! i)
                     \<lparr> msgs := (msgs (fetches s ! i))
                                 (n \<mapsto> m\<lparr> email := (email m)\<lparr> body := Some buffer \<rparr> \<rparr>) \<rparr>] \<rparr>,
            [OfMsg n (Log (LogError (''Error parsing email body: '' @ err)))])
       \<and> on_new_fetch ph sp j (Deliver (Part k (BodyEnd which buffer now))) sv =
           sv\<lparr> new_fetches := (new_fetches sv)
                  [j := (new_fetches sv ! j)
                     \<lparr> f_msgs := (f_msgs (new_fetches sv ! j))
                                   (k \<mapsto> m'\<lparr> email := (email m')\<lparr> body := Some buffer \<rparr> \<rparr>) \<rparr>],
               trace := trace sv @ [Logged (LogError (''Error parsing email body: '' @ err))] \<rparr>"
proof -
  let ?X = "BodyEnd which buffer now"
  let ?c0 = "new_closure acc uuid t0"
  note stp = failing_text_step[where sp = sp and buffer = buffer and which = which and err = err, OF nh fail]
  have c1: "msg_step ph sp acc ?X c =
           (c\<lparr> email := (email c)\<lparr> body := Some buffer \<rparr> \<rparr>,
            [Log (LogError (''Error parsing email body: '' @ err))])"
    by (rule stp)
  obtain m1 o1 where r1: "msg_run ph sp acc ?c0 pre = (m1, o1)"
    by (cases "msg_run ph sp acc ?c0 pre")
  let ?m2 = "m1\<lparr> email := (email m1)\<lparr> body := Some buffer \<rparr> \<rparr>"
  obtain m3 o3 where r3: "msg_run ph sp acc ?m2 mid = (m3, o3)"
    by (cases "msg_run ph sp acc ?m2 mid")
  have whole: "msg_run ph sp acc ?c0 (pre @ ?X # mid) =
                 (m3, o1 @ Log (LogError (''Error parsing email body: '' @ err)) # o3)"
    using r1 r3 stp[of ph acc now m1] by (simp add: msg_run_append)
  from msg_run_keeps_body[OF quiet, of ph sp acc ?m2] r3
  have b3: "body (email m3) = Some buffer" by simp
  from whole b3 have c2: "body (email (fst (msg_run ph sp acc ?c0 (pre @ ?X # mid)))) = Some buffer"
    by simp
  from alive quiet have ne: "MsgEnd \<notin> set (pre @ ?X # mid)" by auto
  have "emitted (snd (msg_run ph sp acc ?c0 ((pre @ ?X # mid) @ MsgEnd # post))) =
     (if emittable (email (fst (msg_run ph sp acc ?c0 (pre @ ?X # mid))))
      then [email (fst (msg_run ph sp acc ?c0 (pre @ ?X # mid)))] else [])"
    by (rule emitted_at_end[OF ne])
  then have c3: "emitted (snd (msg_run ph sp acc ?c0 (pre @ ?X # mid @ MsgEnd # post))) =
           (if js_truthy (subject (email (fst (msg_run ph sp acc ?c0 (pre @ ?X # mid)))))
               \<and> buffer \<noteq> []
            then [email (fst (msg_run ph sp acc ?c0 (pre @ ?X # mid)))]
            else [])"
    using c2 by (simp add: emittable_def js_truthy_def)
  obtain m4 o4 where r4: "msg_run ph sp acc ?c0 fin = (m4, o4)"
    by (cases "msg_run ph sp acc ?c0 fin")
  from over have "MsgEnd \<in> set fin \<or> \<not> end_once ?c0" by simp
  from msg_run_end_consumed[OF this, of ph sp acc] r4 have e4: "\<not> end_once m4" by simp
  obtain m5 o5 where r5: "msg_run ph sp acc m4 (?X # post) = (m5, o5)"
    by (cases "msg_run ph sp acc m4 (?X # post)")
  have "emitted (snd (msg_run ph sp acc m4 (?X # post))) = []"
    by (rule msg_run_ended[OF e4])
  then have e5: "emitted o5 = []" by (simp only: r5 snd_conv)
  have "msg_run ph sp acc ?c0 (fin @ ?X # post) = (m5, o4 @ o5)"
    by (simp only: msg_run_append r4 r5 Let_def prod.case)
  with r4 e5 have c4: "emitted (snd (msg_run ph sp acc ?c0 (fin @ ?X # post))) =
           emitted (snd (msg_run ph sp acc ?c0 fin))"
    by (simp add: emitted_append)
  have c5: "on_fetch_event ph sp acc i (Deliver (Part n ?X)) s =
           (s\<lparr> fetches := (fetches s)
                  [i := (fetches s ! i)
                     \<lparr> msgs := (msgs (fetches s ! i))
                                 (n \<mapsto> m\<lparr> email := (email m)\<lparr> body := Some buffer \<rparr> \<rparr>) \<rparr>] \<rparr>,
            [OfMsg n (Log (LogError (''Error parsing email body: '' @ err)))])"
    using bi bm stp[of ph acc now m]
    by (simp add: on_fetch_event_def runs_end_def Let_def)
  have c6: "on_new_fetch ph sp j (Deliver (Part k ?X)) sv =
           sv\<lparr> new_fetches := (new_fetches sv)
                  [j := (new_fetches sv ! j)
                     \<lparr> f_msgs := (f_msgs (new_fetches sv ! j))
                                   (k \<mapsto> m'\<lparr> email := (email m')\<lparr> body := Some buffer \<rparr> \<rparr>) \<rparr>],
               trace := trace sv @ [Logged (LogError (''Error parsing email body: '' @ err))] \<rparr>"
    using nm stp[of ph "f_owner (new_fetches sv ! j)" now m']
    by (simp add: on_new_fetch_def Let_def)
  from c1 c2 c3 c4 c5 c6 show ?thesis by blast
qed

text \<open>
  The text part \<open>!raw\<close> fails to parse. Coming after the header with subject \<open>Hi\<close>
  and before the attributes and the 'end', it gives one record, with body \<open>!raw\<close>;
  coming after the 'end', it gives none. In the initial sync and in the fetch of new
  mail the event leaves the one log entry, and the connection is as before.
\<close>

theorem parse_failure_falls_back_to_raw_witness:
  "map subject (emitted (snd (msg_run demo_parseHeader demo_simpleParser ''a'' (new_closure ''a'' ''u'' 0)
        ([BodyEnd ''HEADER'' ''Hi'' 1] @ BodyEnd ''TEXT'' ''!raw'' 2 #
         [Attributes \<lparr> uid = 7, flags = None \<rparr>] @ MsgEnd # [])))) = [Some ''Hi'']
   \<and> map body (emitted (snd (msg_run demo_parseHeader demo_simpleParser ''a'' (new_closure ''a'' ''u'' 0)
        ([BodyEnd ''HEADER'' ''Hi'' 1] @ BodyEnd ''TEXT'' ''!raw'' 2 #
         [Attributes \<lparr> uid = 7, flags = None \<rparr>] @ MsgEnd # [])))) = [Some ''!raw'']
   \<and> emitted (snd (msg_run demo_parseHeader demo_simpleParser ''a'' (new_closure ''a'' ''u'' 0)
        ([BodyEnd ''HEADER'' ''Hi'' 1, Attributes \<lparr> uid = 7, flags = None \<rparr>, MsgEnd]
         @ BodyEnd ''TEXT'' ''!raw'' 2 # []))) = []
   \<and> snd (on_fetch_event demo_parseHeader demo_simpleParser ''a'' 0
            (Deliver (Part 5 (BodyEnd ''TEXT'' ''!raw'' 2))) demo_fetching_sync) =
       [OfMsg 5 (Log (LogError ''Error parsing email body: malformed''))]
   \<and> processedCount (fetches (fst (on_fetch_event demo_parseHeader demo_simpleParser ''a'' 0
            (Deliver (Part 5 (BodyEnd ''TEXT'' ''!raw'' 2))) demo_fetching_sync)) ! 0) = 0
   \<and> trace (on_new_fetch demo_parseHeader demo_simpleParser 0
            (Deliver (Part 11 (BodyEnd ''TEXT'' ''!raw'' 2))) demo_fetching_service) =
       trace demo_fetching_service @ [Logged (LogError ''Error parsing email body: malformed'')]
   \<and> conns (on_new_fetch demo_parseHeader demo_simpleParser 0
            (Deliver (Part 11 (BodyEnd ''TEXT'' ''!raw'' 2))) demo_fetching_service) =
       conns demo_fetching_service"
proof -
  let ?pre = "[BodyEnd ''HEADER'' ''Hi'' 1]"
  let ?mid = "[Attributes \<lparr> uid = 7, flags = None \<rparr>]"
  let ?fin = "[BodyEnd ''HEADER'' ''Hi'' 1, Attributes \<lparr> uid = 7, flags = None \<rparr>, MsgEnd]"
  let ?m = "new_closure ''a'' ''u'' 0"
  have nh: "\<not> prefix ''HEADER'' ''TEXT''" by simp
  have fail: "demo_simpleParser ''!raw'' = Inl ''malformed''" by (simp add: demo_simpleParser_def)
  have alive: "MsgEnd \<notin> set ?pre" by simp
  have quiet: "\<forall>ev\<in>set ?mid. ev \<noteq> MsgEnd \<and> (\<forall>w b t. ev = BodyEnd w b t \<longrightarrow> prefix ''HEADER'' w)"
    by simp
  have over: "MsgEnd \<in> set ?fin" by simp
  have bi: "0 < length (fetches demo_fetching_sync)"
    by (simp add: demo_fetching_sync_def initialSync_def processBatch_def on_fetch_event_def
          runs_end_def make_batches.simps batchSize_def Let_def)
  have bm: "msgs (fetches demo_fetching_sync ! 0) 5 = Some ?m"
    by (simp add: demo_fetching_sync_def initialSync_def processBatch_def on_fetch_event_def
          runs_end_def make_batches.simps batchSize_def Let_def)
  have pc: "processedCount (fetches demo_fetching_sync ! 0) = 0"
    by (simp add: demo_fetching_sync_def initialSync_def processBatch_def on_fetch_event_def
          runs_end_def make_batches.simps batchSize_def Let_def)
  have ni: "0 < length (new_fetches demo_fetching_service)"
    by (simp add: demo_fetching_service_def service_defs show_int_1)
  have nm: "f_msgs (new_fetches demo_fetching_service ! 0) 11 = Some ?m"
    by (simp add: demo_fetching_service_def service_defs show_int_1)
  note t = parse_failure_falls_back_to_raw
      [where which = "''TEXT''" and sp = demo_simpleParser and buffer = "''!raw''"
         and err = "''malformed''" and pre = ?pre and mid = ?mid and fin = ?fin
         and s = demo_fetching_sync and i = 0 and n = 5 and m = ?m
         and sv = demo_fetching_service and j = 0 and k = 11 and m' = ?m
         and ph = demo_parseHeader and acc = "''a''" and now = 2 and uuid = "''u''" and ?t0.0 = 0
         and post = "[]",
       OF nh fail alive quiet over bi bm ni nm]
  have sub: "subject (email (fst (msg_run demo_parseHeader demo_simpleParser ''a'' ?m
               (?pre @ BodyEnd ''TEXT'' ''!raw'' 2 # ?mid)))) = Some ''Hi''"
    by (simp add: normalizer_defs)
  from t have bod: "body (email (fst (msg_run demo_parseHeader demo_simpleParser ''a'' ?m
               (?pre @ BodyEnd ''TEXT'' ''!raw'' 2 # ?mid)))) = Some ''!raw''"
    by blast
  from t have "emitted (snd (msg_run demo_parseHeader demo_simpleParser ''a'' ?m
                         (?pre @ BodyEnd ''TEXT'' ''!raw'' 2 # ?mid @ MsgEnd # []))) =
           (if js_truthy (subject (email (fst (msg_run demo_parseHeader demo_simpleParser ''a'' ?m
                                                 (?pre @ BodyEnd ''TEXT'' ''!raw'' 2 # ?mid)))))
               \<and> ''!raw'' \<noteq> []
            then [email (fst (msg_run demo_parseHeader demo_simpleParser ''a'' ?m
                                (?pre @ BodyEnd ''TEXT'' ''!raw'' 2 # ?mid)))]
            else [])"
    by blast
  then have em: "emitted (snd (msg_run demo_parseHeader demo_simpleParser ''a'' ?m
                         (?pre @ BodyEnd ''TEXT'' ''!raw'' 2 # ?mid @ MsgEnd # []))) =
            [email (fst (msg_run demo_parseHeader demo_simpleParser ''a'' ?m
                                (?pre @ BodyEnd ''TEXT'' ''!raw'' 2 # ?mid)))]"
    by (simp only: sub js_truthy_def option.case list.distinct not_False_eq_True simp_thms if_True)
  have w1: "map subject (emitted (snd (msg_run demo_parseHeader demo_simpleParser ''a'' ?m
                         (?pre @ BodyEnd ''TEXT'' ''!raw'' 2 # ?mid @ MsgEnd # [])))) = [Some ''Hi'']"
    by (simp only: em list.map sub)
  have w2: "map body (emitted (snd (msg_run demo_parseHeader demo_simpleParser ''a'' ?m
                         (?pre @ BodyEnd ''TEXT'' ''!raw'' 2 # ?mid @ MsgEnd # [])))) = [Some ''!raw'']"
    by (simp only: em list.map bod)
  from t have "emitted (snd (msg_run demo_parseHeader demo_simpleParser ''a'' ?m
                         (?fin @ BodyEnd ''TEXT'' ''!raw'' 2 # []))) =
           emitted (snd (msg_run demo_parseHeader demo_simpleParser ''a'' ?m ?fin))"
    by blast
  moreover have "emitted (snd (msg_run demo_parseHeader demo_simpleParser ''a'' ?m ?fin)) = []"
    by (simp add: normalizer_defs)
  ultimately have w3: "emitted (snd (msg_run demo_parseHeader demo_simpleParser ''a'' ?m
                         (?fin @ BodyEnd ''TEXT'' ''!raw'' 2 # []))) = []"
    by (rule trans)
  from t have f5: "on_fetch_event demo_parseHeader demo_simpleParser ''a'' 0
            (Deliver (Part 5 (BodyEnd ''TEXT'' ''!raw'' 2))) demo_fetching_sync =
           (demo_fetching_sync\<lparr> fetches := (fetches demo_fetching_sync)
                  [0 := (fetches demo_fetching_sync ! 0)
                     \<lparr> msgs := (msgs (fetches demo_fetching_sync ! 0))
                                 (5 \<mapsto> ?m\<lparr> email := (email ?m)\<lparr> body := Some ''!raw'' \<rparr> \<rparr>) \<rparr>] \<rparr>,
            [OfMsg 5 (Log (LogError (''Error parsing email body: '' @ ''malformed'')))])"
    by blast
  from f5 have w4: "snd (on_fetch_event demo_parseHeader demo_simpleParser ''a'' 0
            (Deliver (Part 5 (BodyEnd ''TEXT'' ''!raw'' 2))) demo_fetching_sync) =
       [OfMsg 5 (Log (LogError ''Error parsing email body: malformed''))]"
    by simp
  from f5 pc bi have w5: "processedCount (fetches (fst (on_fetch_event demo_parseHeader demo_simpleParser ''a'' 0
            (Deliver (Part 5 (BodyEnd ''TEXT'' ''!raw'' 2))) demo_fetching_sync)) ! 0) = 0"
    by simp
  from t have f6: "on_new_fetch demo_parseHeader demo_simpleParser 0
            (Deliver (Part 11 (BodyEnd ''TEXT'' ''!raw'' 2))) demo_fetching_service =
           demo_fetching_service\<lparr> new_fetches := (new_fetches demo_fetching_service)
                  [0 := (new_fetches demo_fetching_service ! 0)
                     \<lparr> f_msgs := (f_msgs (new_fetches demo_fetching_service ! 0))
                                   (11 \<mapsto> ?m\<lparr> email := (email ?m)\<lparr> body := Some ''!raw'' \<rparr> \<rparr>) \<rparr>],
               trace := trace demo_fetching_service @
                 [Logged (LogError (''Error parsing email body: '' @ ''malformed''))] \<rparr>"
    by blast
  from f6 have w6: "trace (on_new_fetch demo_parseHeader demo_simpleParser 0
            (Deliver (Part 11 (BodyEnd ''TEXT'' ''!raw'' 2))) demo_fetching_service) =
       trace demo_fetching_service @ [Logged (LogError ''Error parsing email body: malformed'')]"
    by simp
  from f6 have w7: "conns (on_new_fetch demo_parseHeader demo_simpleParser 0
            (Deliver (Part 11 (BodyEnd ''TEXT'' ''!raw'' 2))) demo_fetching_service) =
       conns demo_fetching_service"
    by simp
  from w1 w2 w3 w4 w5 w6 w7 show ?thesis by (simp only: append_Cons append_Nil simp_thms)
qed

section \<open>Properties of the Fetch Batcher\<close>





lemma issued_simps [simp]:
  "issued [] = []" "issued (FetchBatch b # xs) = b # issued xs"
  "issued (Settle r # xs) = issued xs" "issued (OfMsg n e # xs) = issued xs"
  "issued (SyncLog l # xs) = issued xs" "issued (OpenBox # xs) = issued xs"
  "issued (Search # xs) = issued xs" "issued (xs @ ys) = issued xs @ issued ys"
  by (simp_all add: issued_def)

lemma issued_map_OfMsg [simp]: "issued (map (\<lambda>(n, x). OfMsg n x) out) = []"
  by (induction out) auto












section \<open>Where the Connection Lifecycle Manager and the Idle Supervisor miss the claims\<close>

lemma cleanupConnection_inactive:
  "connectionsActive (cleanupConnection accId s) accId = Some False"
  by (simp add: cleanupConnection_def clearTimeout_def act_def Let_def split: option.splits)

text \<open>
  C8 is not met by the code. onImapEnd calls cleanupConnection, which sets the account's
  \<open>connectionsActive\<close> entry to false, before it tests that entry; so for every state and
  every account it does what cleanupConnection does after one log entry, and schedules
  nothing. For the account \<open>a\<close>, connected, synced and idling, never stopped, the 'end'
  event of its connection leaves the log entry and the cancelled watchdog, and no timeout
  is pending afterwards: no reconnection after 5 seconds.
\<close>

theorem onImapEnd_schedules_nothing:
  "onImapEnd accId s =
     cleanupConnection accId
       (act (Logged (LogInfo (''IMAP connection ended for account: '' @ accId))) s)
   \<and> (let s1 = run demo_parseHeader demo_simpleParser (new_service [demo_config])
                 [StartSync, ImapReady 0, SyncSettled 0 None];
           s2 = step demo_parseHeader demo_simpleParser (ImapEnd 0) s1
       in connectionsActive s1 ''a'' = Some True
        \<and> timeouts s1 = [(0, WatchdogRestart ''a'' 0)]
        \<and> trace s2 = trace s1 @
             [Logged (LogInfo ''IMAP connection ended for account: a''), ClearTimeout 0]
        \<and> timeouts s2 = [])"
proof -
  have g: "onImapEnd accId s =
     cleanupConnection accId
       (act (Logged (LogInfo (''IMAP connection ended for account: '' @ accId))) s)"
    by (simp add: onImapEnd_def Let_def cleanupConnection_inactive)
  have c: "(let s1 = run demo_parseHeader demo_simpleParser (new_service [demo_config])
                 [StartSync, ImapReady 0, SyncSettled 0 None];
           s2 = step demo_parseHeader demo_simpleParser (ImapEnd 0) s1
       in connectionsActive s1 ''a'' = Some True
        \<and> timeouts s1 = [(0, WatchdogRestart ''a'' 0)]
        \<and> trace s2 = trace s1 @
             [Logged (LogInfo ''IMAP connection ended for account: a''), ClearTimeout 0]
        \<and> timeouts s2 = [])"
    by (simp add: service_defs)
  from g c show ?thesis by (rule conjI)
qed

text \<open>
  C4 is not met by the code. The account \<open>a\<close> is connected, synced and idling when
  stopSync is called; afterwards no account is registered and no timeout is pending. An
  'error' event then arrives on the closed connection: onImapError schedules a
  reconnection without looking at the active flag, and when that timeout expires after
  30 seconds a new connection is created and connected for the account. The same happens
  when the 'error' event comes before stopSync: stopSync leaves the reconnection timeout
  pending, and its expiry connects the account again.
\<close>

theorem error_after_stopSync_reconnects:
  "(let s1 = run demo_parseHeader demo_simpleParser (new_service [demo_config])
               [StartSync, ImapReady 0, SyncSettled 0 None, StopSync];
        s2 = run demo_parseHeader demo_simpleParser s1 [ImapError 0, Timeout 1]
    in accounts s1 = [] \<and> timeouts s1 = []
     \<and> trace s2 = trace s1 @
         [Logged (LogError ''IMAP error for account a:''),
          SetTimeout 1 (ReconnectByUser ''a'') 30000,
          Logged (LogInfo ''Connecting to IMAP account: a''), NewImap 1, Connect 1]
     \<and> accounts s2 = [(''a'', 1)])
   \<and> (let s1 = run demo_parseHeader demo_simpleParser (new_service [demo_config])
               [StartSync, ImapReady 0, SyncSettled 0 None, ImapError 0, StopSync];
        s2 = step demo_parseHeader demo_simpleParser (Timeout 1) s1
    in accounts s1 = [] \<and> timeouts s1 = [(1, ReconnectByUser ''a'')]
     \<and> trace s2 = trace s1 @
         [Logged (LogInfo ''Connecting to IMAP account: a''), NewImap 1, Connect 1]
     \<and> accounts s2 = [(''a'', 1)])"
  by (simp add: service_defs)

text \<open>
  C5 is not met by the code. The account \<open>a\<close> idles with one 'mail' listener. A first
  notification starts one fetch; when that fetch ends, fetchNewEmails calls startIdleMode,
  which registers a second 'mail' listener (\<open>demo_after_fetch\<close>). The next notification
  of one new message then runs fetchNewEmails twice: two fetches of the same range 12:12
  are issued and are in flight together.
\<close>

theorem second_notification_fetches_twice:
  "mail_listeners (conns (run demo_parseHeader demo_simpleParser (new_service [demo_config])
       [StartSync, ImapReady 0, SyncSettled 0 None, BoxChanged 0 (Some 11)]) ! 0) = 1
   \<and> mail_listeners (conns demo_after_fetch ! 0) = 2
   \<and> in_flight demo_after_fetch = []
   \<and> trace (step demo_parseHeader demo_simpleParser (ImapMail 0 1) demo_after_fetch) =
       trace demo_after_fetch @
         [Logged (LogInfo ''1 new message(s) arrived for a''), IdleStop 0, SeqFetch 0 1 12 12,
          Logged (LogInfo ''1 new message(s) arrived for a''), IdleStop 0, SeqFetch 0 2 12 12]
   \<and> in_flight (step demo_parseHeader demo_simpleParser (ImapMail 0 1) demo_after_fetch) = [1, 2]"
  by (simp add: demo_after_fetch_def service_defs show_int_1 numeral_2_eq_2)

text \<open>
  C6 is not met by the code. The account \<open>a\<close> idles with its watchdog, timeout 0,
  pending. On a notification fetchNewEmails leaves idle and issues the fetch without
  cancelling the watchdog: timeout 0 is still pending while the fetch runs. When the
  fetch ends, idle is entered again and a second watchdog is armed; the account's entry
  in \<open>watchdogTimers\<close> now holds timeout 1, and timeout 0 stays pending with no handle
  left to cancel it.
\<close>

theorem fetch_leaves_watchdog_pending:
  "(let s1 = run demo_parseHeader demo_simpleParser (new_service [demo_config])
               [StartSync, ImapReady 0, SyncSettled 0 None, BoxChanged 0 (Some 11)];
        s2 = step demo_parseHeader demo_simpleParser (ImapMail 0 1) s1;
        s3 = step demo_parseHeader demo_simpleParser (NewFetch 0 FetchEnd) s2
    in timeouts s1 = [(0, WatchdogRestart ''a'' 0)] \<and> watchdogTimers s1 ''a'' = Some 0
     \<and> trace s2 = trace s1 @
         [Logged (LogInfo ''1 new message(s) arrived for a''), IdleStop 0, SeqFetch 0 0 11 11]
     \<and> timeouts s2 = [(0, WatchdogRestart ''a'' 0)]
     \<and> in_flight s2 = [0]
     \<and> timeouts s3 = [(0, WatchdogRestart ''a'' 0), (1, WatchdogRestart ''a'' 0)]
     \<and> watchdogTimers s3 ''a'' = Some 1)"
  by (simp add: service_defs show_int_1)

text \<open>
  C1 is not met by the code, by the defect of C5. The account \<open>a\<close> has been notified
  once, of one message at a mailbox total of 11, and fetched the range 11:11; since that
  fetch ended, two 'mail' listeners are registered (\<open>demo_two_listeners\<close>). The mailbox
  grows to 13 and one notification reports 2 new messages. fetchNewEmails runs twice:
  the range 12:13 is fetched twice instead of once, and with each fetch delivering its
  messages in ascending order the records come out in the order 12, 13, 12, 13, four
  records instead of two and not in ascending order.
\<close>

theorem notification_range_fetched_twice:
  "mail_listeners (conns demo_two_listeners ! 0) = 2
   \<and> box (conns demo_two_listeners ! 0) = Some 13
   \<and> trace (step demo_parseHeader demo_simpleParser (ImapMail 0 2) demo_two_listeners) =
       trace demo_two_listeners @
         [Logged (LogInfo ''2 new message(s) arrived for a''), IdleStop 0, SeqFetch 0 1 12 13,
          Logged (LogInfo ''2 new message(s) arrived for a''), IdleStop 0, SeqFetch 0 2 12 13]
   \<and> seq_fetches (trace demo_second_notification) = [(11, 11), (12, 13), (12, 13)]
   \<and> received_seqnos (trace demo_second_notification) = [12, 13, 12, 13]"
  by (simp add: demo_two_listeners_def demo_second_notification_def demo_mail_def service_defs
        normalizer_defs show_int_1 show_int_2 numeral_2_eq_2 seq_fetches_def received_seqnos_def)

end
